theory Spec2Isabelle
  imports
    Main
    "HOL-Library.Char_ord"
    "HOL-Library.List_Lexorder"
    "HOL-Library.AList"
    "HOL-Library.Sublist"
    "HOL-Library.Multiset"
begin

section \<open>Data model\<close>

text \<open>
  The types \<open>Header\<close>, \<open>Route\<close>, \<open>Environment\<close> and \<open>MockoonServerOptions\<close> are imported
  by \<^verbatim>\<open>server.ts\<close> from the package \<^verbatim>\<open>@mockoon/commons\<close>; the records below carry the fields
  that \<^verbatim>\<open>server.ts\<close> and \<^verbatim>\<open>utils.ts\<close> read. JavaScript strings are \<open>string\<close>; a string is
  truthy exactly when it is not empty. The field \<^verbatim>\<open>value\<close> of a header is written
  \<open>hvalue\<close> and the field \<^verbatim>\<open>method\<close> is written \<open>http_method\<close>, since the source's
  spellings are reserved words of the theory language.
\<close>

record Header =
  key :: string
  hvalue :: string

record RouteResponse =
  uuid :: string
  statusCode :: nat
  headers :: "Header list"
  body :: string
  latency :: nat
  isDefault :: bool

record Route =
  uuid :: string
  http_method :: string
  endpoint :: string
  enabled :: bool
  responses :: "RouteResponse list"
  randomResponse :: bool
  sequentialResponse :: bool

record Environment =
  uuid :: string
  latency :: nat
  headers :: "Header list"
  cors :: bool
  endpointPrefix :: string
  proxyMode :: bool
  proxyHost :: string
  proxyRemovePrefix :: bool
  proxyReqHeaders :: "Header list"
  proxyResHeaders :: "Header list"
  routes :: "Route list"

text \<open>
  \<^verbatim>\<open>refreshEnvironmentFunction\<close> is optional in the options bag; when present it maps an
  environment uuid to an environment or to \<^verbatim>\<open>undefined\<close>.
\<close>

record MockoonServerOptions =
  refreshEnvironmentFunction :: "(string \<Rightarrow> Environment option) option"

text \<open>The two private fields of the class \<^verbatim>\<open>MockoonServer\<close> that the methods below read.\<close>

record MockoonServer =
  environment :: Environment
  options :: MockoonServerOptions

text \<open>
  A header value on a Node or express object is a string or an array of strings
  (\<^verbatim>\<open>string | string[]\<close>); a key without a value reads as \<^verbatim>\<open>undefined\<close>, which is
  \<open>None\<close>. A numeric value is represented by its decimal string, which is what
  \<^verbatim>\<open>toString\<close> yields for it.
\<close>

datatype header_value = HString string | HArray "string list"

text \<open>
  A header object is a JavaScript object: an association list whose keys are distinct
  and keep their insertion order. \<open>AList.update\<close> overwrites a key in place and appends
  a new key at the end, as an assignment to an object property does.
\<close>

type_synonym header_object = "(string \<times> header_value) list"

record Request =
  http_method :: string
  url :: string
  originalUrl :: string
  route_path :: "string option"
  params :: "(string \<times> string) list option"
  query :: "(string \<times> string) list option"
  body :: string
  headers :: "(string \<times> header_value option) list"
  proxied :: bool

record Response =
  statusCode :: nat
  headers :: header_object
  body :: string
  sent :: "string option"
  routeUUID :: "string option"
  routeResponseUUID :: "string option"

text \<open>
  What \<^verbatim>\<open>server.ts\<close> takes from outside the two source files: the template engine
  \<^verbatim>\<open>TemplateParser\<close> (\<open>None\<close> when it throws), the predicate \<^verbatim>\<open>TestHeaderValidity\<close> of
  \<^verbatim>\<open>@mockoon/commons\<close>, and three messages of the catalogue \<^verbatim>\<open>Texts.EN.MESSAGES\<close>. They are
  parameters of the model. \<^verbatim>\<open>parseHeader\<close> applies a header only when
  \<^verbatim>\<open>TestHeaderValidity(header.key)\<close> is false: a true result reports a key that is not a
  valid header name. The last two fields are what the response selector delegates: the
  truth of a response's rules against a request, and the random draw.
\<close>

record Collaborators =
  TemplateParser :: "string \<Rightarrow> Request \<Rightarrow> Environment \<Rightarrow> string option"
  TestHeaderValidity :: "string \<Rightarrow> bool"
  MESSAGES_HEADER_PARSING_ERROR :: string
  MESSAGES_ROUTE_NO_LONGER_EXISTS :: string
  MESSAGES_PROXY_ERROR :: string
  rules_hold :: "RouteResponse \<Rightarrow> Request \<Rightarrow> bool"
  random_index :: nat

section \<open>Strings\<close>

text \<open>\<^verbatim>\<open>String.prototype.toLowerCase\<close> on the ASCII letters.\<close>

definition toLowerCase_char :: "char \<Rightarrow> char" where
  "toLowerCase_char c =
     (if CHR ''A'' \<le> c \<and> c \<le> CHR ''Z'' then char_of (of_char c + (32::nat)) else c)"

definition toLowerCase :: "string \<Rightarrow> string" where
  "toLowerCase s = map toLowerCase_char s"

section \<open>Header targets\<close>

text \<open>
  \<^verbatim>\<open>setHeaders\<close> tells its three targets apart by the accessors they have: an express
  \<^verbatim>\<open>Response\<close> has \<^verbatim>\<open>set\<close>, the proxy's outgoing \<^verbatim>\<open>ClientRequest\<close> has \<^verbatim>\<open>setHeader\<close> but no
  \<^verbatim>\<open>set\<close>, and the proxy's \<^verbatim>\<open>IncomingMessage\<close> has neither and exposes the plain object
  \<^verbatim>\<open>headers\<close>. The accessors belong to express and to Node's http module. They are modelled
  on a header object as those libraries document them: Node stores an outgoing header
  under its lower-cased name, so \<^verbatim>\<open>getHeader\<close> and \<^verbatim>\<open>setHeader\<close> are case-insensitive;
  express's \<^verbatim>\<open>get\<close> and \<^verbatim>\<open>set\<close> call them, and \<^verbatim>\<open>append\<close> reads the previous value and, when
  it is truthy, stores the array of the previous values followed by the new one. The
  character checks of Node's \<^verbatim>\<open>setHeader\<close> and the charset that express adds to a
  \<^verbatim>\<open>Content-Type\<close> value are outside the model.
\<close>

datatype target =
    ExpressResponse header_object
  | ClientRequest header_object
  | IncomingMessage header_object

fun truthy :: "header_value option \<Rightarrow> bool" where
  "truthy None = False"
| "truthy (Some (HString s)) = (s \<noteq> [])"
| "truthy (Some (HArray vs)) = True"

definition getHeader :: "header_object \<Rightarrow> string \<Rightarrow> header_value option" where
  "getHeader hs name = map_of hs (toLowerCase name)"

definition setHeader :: "header_object \<Rightarrow> string \<Rightarrow> header_value \<Rightarrow> header_object" where
  "setHeader hs name v = AList.update (toLowerCase name) v hs"

definition express_set :: "header_object \<Rightarrow> string \<Rightarrow> string \<Rightarrow> header_object" where
  "express_set hs field v = setHeader hs field (HString v)"

definition express_append :: "header_object \<Rightarrow> string \<Rightarrow> string \<Rightarrow> header_object" where
  "express_append hs field v =
     (let prev = getHeader hs field in
      setHeader hs field
        (if truthy prev then
           (case prev of
              Some (HArray ps) \<Rightarrow> HArray (ps @ [v])
            | Some (HString p) \<Rightarrow> HArray [p, v]
            | None \<Rightarrow> HString v)
         else HString v))"

section \<open>Header Merger\<close>

text \<open>\<^verbatim>\<open>appendHeaderValue\<close> (server.ts, lines 607-620).\<close>

fun appendHeaderValue :: "header_value option \<Rightarrow> string \<Rightarrow> header_value" where
  "appendHeaderValue None newValue = HString newValue"
| "appendHeaderValue (Some (HArray cs)) newValue = HArray (cs @ [newValue])"
| "appendHeaderValue (Some (HString c)) newValue =
     (if c \<noteq> [] then HArray [c, newValue] else HString newValue)"

text \<open>
  \<^verbatim>\<open>parseHeader\<close> (server.ts, lines 629-646): \<open>None\<close> is the source's \<^verbatim>\<open>null\<close>. A throw of
  the template engine is caught and the catalogue's message becomes the value.
\<close>

definition parseHeader ::
  "Collaborators \<Rightarrow> MockoonServer \<Rightarrow> Header \<Rightarrow> Request \<Rightarrow> string option" where
  "parseHeader ext this header request =
     (if key header \<noteq> [] \<and> hvalue header \<noteq> [] \<and> \<not> TestHeaderValidity ext (key header) then
        (case TemplateParser ext (hvalue header) request (environment this) of
           Some rendered \<Rightarrow> Some rendered
         | None \<Rightarrow> Some (MESSAGES_HEADER_PARSING_ERROR ext))
      else None)"

text \<open>
  The body of the \<^verbatim>\<open>forEach\<close> callback of \<^verbatim>\<open>setHeaders\<close> (server.ts, lines 567-597), in
  two parts: \<open>apply_parsed\<close> is the chain of tests on the target's shape (lines 574-596),
  run once the parsed value is known not to be \<^verbatim>\<open>null\<close>.
\<close>

definition apply_parsed :: "target \<Rightarrow> Header \<Rightarrow> string \<Rightarrow> target" where
  "apply_parsed tgt header parsedHeaderValue =
     (case tgt of
        ExpressResponse hs \<Rightarrow>
          (if toLowerCase (key header) = ''content-type''
           then ExpressResponse (express_set hs (key header) parsedHeaderValue)
           else ExpressResponse (express_append hs (key header) parsedHeaderValue))
      | ClientRequest hs \<Rightarrow>
          ClientRequest
            (setHeader hs (key header)
               (appendHeaderValue (getHeader hs (key header)) parsedHeaderValue))
      | IncomingMessage hs \<Rightarrow>
          IncomingMessage
            (AList.update (key header)
               (appendHeaderValue (map_of hs (key header)) parsedHeaderValue) hs))"

definition setHeader_step ::
  "Collaborators \<Rightarrow> MockoonServer \<Rightarrow> Request \<Rightarrow> target \<Rightarrow> Header \<Rightarrow> target" where
  "setHeader_step ext this request tgt header =
     (case parseHeader ext this header request of
        None \<Rightarrow> tgt
      | Some parsedHeaderValue \<Rightarrow> apply_parsed tgt header parsedHeaderValue)"

text \<open>\<^verbatim>\<open>setHeaders\<close> (server.ts, lines 566-598): the headers are applied from left to right.\<close>

definition setHeaders ::
  "Collaborators \<Rightarrow> MockoonServer \<Rightarrow> Header list \<Rightarrow> target \<Rightarrow> Request \<Rightarrow> target" where
  "setHeaders ext this hdrs tgt request = foldl (setHeader_step ext this request) tgt hdrs"

text \<open>Reading a target back: the value a key has, and how many values that is.\<close>

fun target_get :: "target \<Rightarrow> string \<Rightarrow> header_value option" where
  "target_get (ExpressResponse hs) name = getHeader hs name"
| "target_get (ClientRequest hs) name = getHeader hs name"
| "target_get (IncomingMessage hs) name = map_of hs name"

fun values_of :: "header_value option \<Rightarrow> string list" where
  "values_of None = []"
| "values_of (Some (HString s)) = [s]"
| "values_of (Some (HArray vs)) = vs"

definition value_count :: "header_value option \<Rightarrow> nat" where
  "value_count v = length (values_of v)"

fun is_express :: "target \<Rightarrow> bool" where
  "is_express (ExpressResponse hs) = True"
| "is_express (ClientRequest hs) = False"
| "is_express (IncomingMessage hs) = False"

section \<open>Path normalisation\<close>

text \<open>
  \<^verbatim>\<open>replace(/\/{2,}/g, '/')\<close>: the global replacement scans from the left; where two
  slashes start, the greedy match takes every slash that follows and one slash is written
  for the run; any other character is copied.
\<close>

function replace_slash_runs :: "string \<Rightarrow> string" where
  "replace_slash_runs [] = []"
| "replace_slash_runs [c] = [c]"
| "replace_slash_runs (c # d # cs) =
     (if c = CHR ''/'' \<and> d = CHR ''/''
      then CHR ''/'' # replace_slash_runs (dropWhile (\<lambda>x. x = CHR ''/'') cs)
      else c # replace_slash_runs (d # cs))"
  by pat_completeness auto
termination
  by (relation "measure length") (auto simp: less_Suc_eq_le le_SucI length_dropWhile_le)

text \<open>\<^verbatim>\<open>deduplicateSlashes\<close> (server.ts, lines 162-170).\<close>

definition deduplicateSlashes :: "Request \<Rightarrow> Request" where
  "deduplicateSlashes request = request\<lparr>url := replace_slash_runs (url request)\<rparr>"

text \<open>
  The stages that \<^verbatim>\<open>start\<close> registers on the express application, in the order of its
  calls (server.ts, lines 94-105). Express runs them in this order.
\<close>

datatype stage =
    EmitEvent | DelayResponse | DeduplicateSlashes | CookieParser | ParseBody | LogRequest
  | SetResponseHeaders | SetRoutes | SetCors | EnableProxy | ErrorHandler

definition start_stages :: "stage list" where
  "start_stages =
     [EmitEvent, DelayResponse, DeduplicateSlashes, CookieParser, ParseBody, LogRequest,
      SetResponseHeaders, SetRoutes, SetCors, EnableProxy, ErrorHandler]"

fun has_double_slash :: "string \<Rightarrow> bool" where
  "has_double_slash [] = False"
| "has_double_slash [c] = False"
| "has_double_slash (c # d # cs) =
     ((c = CHR ''/'' \<and> d = CHR ''/'') \<or> has_double_slash (d # cs))"

section \<open>Live refresh\<close>

text \<open>\<^verbatim>\<open>refreshEnvironment\<close> (server.ts, lines 671-681); the updated server is returned.\<close>

definition refreshEnvironment :: "MockoonServer \<Rightarrow> MockoonServer" where
  "refreshEnvironment this =
     (case refreshEnvironmentFunction (options this) of
        Some f \<Rightarrow>
          (if Environment.uuid (environment this) \<noteq> [] then
             (case f (Environment.uuid (environment this)) of
                Some updatedEnvironment \<Rightarrow> this\<lparr>environment := updatedEnvironment\<rparr>
              | None \<Rightarrow> this)
           else this)
      | None \<Rightarrow> this)"

text \<open>\<^verbatim>\<open>getRefreshedRoute\<close> (server.ts, lines 690-698); \<open>None\<close> is \<^verbatim>\<open>undefined\<close>.\<close>

definition getRefreshedRoute :: "MockoonServer \<Rightarrow> Route \<Rightarrow> Route option" where
  "getRefreshedRoute this currentRoute =
     (if refreshEnvironmentFunction (options this) \<noteq> None
         \<and> Environment.uuid (environment this) \<noteq> []
      then find (\<lambda>route. Route.uuid route = Route.uuid currentRoute)
             (routes (environment this))
      else Some currentRoute)"

section \<open>Error responses\<close>

text \<open>
  \<^verbatim>\<open>sendError\<close> (server.ts, lines 656-665); the optional status is \<open>None\<close> when the caller
  gives none. \<open>sent\<close> records the argument of \<^verbatim>\<open>response.send\<close>.
\<close>

definition sendError :: "Response \<Rightarrow> string \<Rightarrow> nat option \<Rightarrow> Response" where
  "sendError response errorMessage status =
     (let r1 = response\<lparr>Response.headers :=
                 express_set (Response.headers response) ''Content-Type'' ''text/plain''\<rparr>;
          r2 = r1\<lparr>Response.body := errorMessage\<rparr>;
          r3 = (case status of Some code \<Rightarrow> r2\<lparr>Response.statusCode := code\<rparr> | None \<Rightarrow> r2)
      in r3\<lparr>sent := Some errorMessage\<rparr>)"

section \<open>Response Selector\<close>

text \<open>
  Modelled from the spec: the class \<^verbatim>\<open>ResponseRulesInterpreter\<close> and its method
  \<^verbatim>\<open>chooseResponse\<close> live in \<^verbatim>\<open>./response-rules-interpreter\<close>, which is not among the source
  files. The spec's algorithm (section 4.2): if \<^verbatim>\<open>sequentialResponse\<close>, pick
  \<^verbatim>\<open>responses[counter mod len(responses)]\<close>; else if \<^verbatim>\<open>randomResponse\<close>, pick a random index in
  \<^verbatim>\<open>[0, len(responses))\<close>; else return the first response whose rules hold, else the first
  response flagged as default, else the first response. The spec fixes the order of the
  sequential policy (section 8): requests 1 to 2N select the indices 0, 1, ..., N-1, 0, 1,
  ..., N-1. The spec's counter is therefore the number of requests the route has served
  before; the handler passes \<^verbatim>\<open>requestNumber\<close>, which is 1 at the first request, so the index
  is \<open>(requestNumber - 1) mod N\<close>. The handler's counter starts at 1 and only grows, so the
  subtraction never goes below zero. The spec promises a response for a non-empty list
  only; for the empty list the model returns \<open>None\<close>.
\<close>

definition chooseResponse ::
  "Collaborators \<Rightarrow> RouteResponse list \<Rightarrow> Request \<Rightarrow> bool \<Rightarrow> bool \<Rightarrow> nat \<Rightarrow> RouteResponse option" where
  "chooseResponse ext routeResponses request isRandom isSequential requestNumber =
     (if routeResponses = [] then None
      else if isSequential then
        Some (routeResponses ! ((requestNumber - 1) mod length routeResponses))
      else if isRandom then
        Some (routeResponses ! (random_index ext mod length routeResponses))
      else
        (case find (\<lambda>r. rules_hold ext r request) routeResponses of
           Some r \<Rightarrow> Some r
         | None \<Rightarrow>
             (case find isDefault routeResponses of
                Some r \<Rightarrow> Some r
              | None \<Rightarrow> Some (hd routeResponses))))"

section \<open>Route handler\<close>

text \<open>
  The callback that \<^verbatim>\<open>setRoutes\<close> registers for an enabled route (server.ts, lines 278-306),
  up to the point where it starts the latency timer: the refresh, the test for a vanished
  route, the selection and the increment of the closure's counter \<^verbatim>\<open>requestNumber\<close>, which
  \<^verbatim>\<open>setRoutes\<close> initialises to 1 (line 273). The state is the server object and the
  counter. When the selector yields nothing, reading \<^verbatim>\<open>enabledRouteResponse.uuid\<close> throws
  after the increment. The timer callback, which writes status, headers and body later,
  is not part of this function.
\<close>

datatype handled = RouteGone | Chosen RouteResponse | TypeError

definition initial_requestNumber :: nat where
  "initial_requestNumber = 1"

definition route_handler ::
  "Collaborators \<Rightarrow> Route \<Rightarrow> MockoonServer \<times> nat \<Rightarrow> Request \<Rightarrow> Response
     \<Rightarrow> (MockoonServer \<times> nat) \<times> Response \<times> handled" where
  "route_handler ext declaredRoute st request response =
     (let this = refreshEnvironment (fst st); requestNumber = snd st in
      case getRefreshedRoute this declaredRoute of
        None \<Rightarrow>
          ((this, requestNumber),
           sendError response (MESSAGES_ROUTE_NO_LONGER_EXISTS ext) (Some 404),
           RouteGone)
      | Some currentRoute \<Rightarrow>
          (case chooseResponse ext (responses currentRoute) request
                  (randomResponse currentRoute) (sequentialResponse currentRoute)
                  requestNumber of
             None \<Rightarrow> ((this, requestNumber + 1), response, TypeError)
           | Some enabledRouteResponse \<Rightarrow>
               ((this, requestNumber + 1),
                (if Route.uuid declaredRoute \<noteq> [] \<and> RouteResponse.uuid enabledRouteResponse \<noteq> []
                 then response\<lparr>routeUUID := Some (Route.uuid declaredRoute),
                        routeResponseUUID := Some (RouteResponse.uuid enabledRouteResponse)\<rparr>
                 else response),
                Chosen enabledRouteResponse)))"

text \<open>
  Successive requests on one route. Each request comes with the server object as the
  handler finds it (other stages and other routes may have refreshed it in between); the
  counter alone is carried from one call of the handler to the next.
\<close>

fun serve ::
  "Collaborators \<Rightarrow> Route \<Rightarrow> nat \<Rightarrow> (MockoonServer \<times> Request \<times> Response) list
     \<Rightarrow> handled list \<times> nat" where
  "serve ext declaredRoute requestNumber [] = ([], requestNumber)"
| "serve ext declaredRoute requestNumber ((this, request, response) # rest) =
     (let r = route_handler ext declaredRoute (this, requestNumber) request response;
          s = serve ext declaredRoute (snd (fst r)) rest
      in (snd (snd r) # fst s, snd s))"

section \<open>Proxy failure\<close>

text \<open>
  The codes of \<^verbatim>\<open>ServerErrorCodes\<close> that \<^verbatim>\<open>server.ts\<close> emits, and the \<^verbatim>\<open>error\<close> event. An
  error object is represented by the text that the template literal \<^verbatim>\<open>${error}\<close> gives.
\<close>

datatype ServerErrorCodes =
    UNKNOWN_SERVER_ERROR | PORT_ALREADY_USED | PORT_INVALID | REQUEST_BODY_PARSE
  | ROUTE_CREATION_ERROR | ROUTE_CREATION_ERROR_REGEX | ROUTE_FILE_SERVING_ERROR
  | ROUTE_SERVING_ERROR | PROXY_ERROR

datatype ServerEvent = ErrorEvent ServerErrorCodes string

text \<open>
  The \<^verbatim>\<open>onError\<close> callback given to the proxy middleware (server.ts, lines 527-534): the
  events it emits and the response it leaves.
\<close>

definition onError ::
  "Collaborators \<Rightarrow> MockoonServer \<Rightarrow> string \<Rightarrow> Request \<Rightarrow> Response
     \<Rightarrow> ServerEvent list \<times> Response" where
  "onError ext this error request response =
     ([ErrorEvent PROXY_ERROR error],
      sendError response
        (MESSAGES_PROXY_ERROR ext @ proxyHost (environment this) @ url request @ '': '' @ error)
        (Some 504))"

section \<open>Transactions\<close>

text \<open>\<^verbatim>\<open>Array.prototype.join\<close> on an array of strings.\<close>

fun join :: "string \<Rightarrow> string list \<Rightarrow> string" where
  "join sep [] = []"
| "join sep [x] = x"
| "join sep (x # y # ys) = x @ sep @ join sep (y # ys)"

text \<open>
  \<^verbatim>\<open>TransformHeaders\<close> (utils.ts, lines 11-29): a \<^verbatim>\<open>reduce\<close> over \<^verbatim>\<open>Object.keys(headers)\<close> that
  pushes one \<open>Header\<close> for each key.
\<close>

definition header_text :: "header_value option \<Rightarrow> string" where
  "header_text headerValue =
     (case headerValue of
        None \<Rightarrow> []
      | Some (HArray vs) \<Rightarrow> join '','' vs
      | Some (HString s) \<Rightarrow> s)"

definition TransformHeaders :: "(string \<times> header_value option) list \<Rightarrow> Header list" where
  "TransformHeaders hdrs =
     foldl (\<lambda>newHeaders kv. newHeaders @ [\<lparr>key = fst kv, hvalue = header_text (snd kv)\<rparr>])
       [] hdrs"

text \<open>\<^verbatim>\<open>AscSort\<close> (utils.ts, lines 37-43); strings compare by character code, left to right.\<close>

definition AscSort :: "Header \<Rightarrow> Header \<Rightarrow> int" where
  "AscSort a b = (if key a < key b then - 1 else 1)"

text \<open>
  \<^verbatim>\<open>Array.prototype.sort\<close> with a comparison function belongs to the JavaScript engine. It
  is modelled as an insertion sort that asks the comparison function alone: an element is
  placed before the first element it compares below.
\<close>

fun insert_by :: "('a \<Rightarrow> 'a \<Rightarrow> int) \<Rightarrow> 'a \<Rightarrow> 'a list \<Rightarrow> 'a list" where
  "insert_by cmp x [] = [x]"
| "insert_by cmp x (y # ys) = (if cmp x y < 0 then x # y # ys else y # insert_by cmp x ys)"

definition array_sort :: "('a \<Rightarrow> 'a \<Rightarrow> int) \<Rightarrow> 'a list \<Rightarrow> 'a list" where
  "array_sort cmp xs = foldl (\<lambda>acc x. insert_by cmp x acc) [] xs"

record TransactionRequest =
  http_method :: string
  urlPath :: string
  route :: "string option"
  params :: "(string \<times> string) list"
  queryParams :: "(string \<times> string) list"
  body :: string
  headers :: "Header list"

record TransactionResponse =
  statusCode :: nat
  headers :: "Header list"
  body :: string

record Transaction =
  request :: TransactionRequest
  response :: TransactionResponse
  routeResponseUUID :: "string option"
  routeUUID :: "string option"
  proxied :: bool

text \<open>
  \<^verbatim>\<open>CreateTransaction\<close> (utils.ts, lines 74-105). \<open>pathname\<close> stands for the platform's URL
  parser, \<^verbatim>\<open>new URL(originalUrl, 'http://localhost/').pathname\<close>; \<^verbatim>\<open>response.getHeaders()\<close> is
  the response's header object.
\<close>

definition getHeaders :: "Response \<Rightarrow> (string \<times> header_value option) list" where
  "getHeaders res = map (\<lambda>kv. (fst kv, Some (snd kv))) (Response.headers res)"

definition CreateTransaction :: "(string \<Rightarrow> string) \<Rightarrow> Request \<Rightarrow> Response \<Rightarrow> Transaction" where
  "CreateTransaction pathname req res =
     \<lparr>request =
        \<lparr>TransactionRequest.http_method = Request.http_method req,
         urlPath = pathname (originalUrl req),
         route = route_path req,
         TransactionRequest.params =
           (case Request.params req of Some ps \<Rightarrow> ps | None \<Rightarrow> []),
         queryParams = (case query req of Some qs \<Rightarrow> qs | None \<Rightarrow> []),
         TransactionRequest.body = Request.body req,
         TransactionRequest.headers = array_sort AscSort (TransformHeaders (Request.headers req))\<rparr>,
      response =
        \<lparr>TransactionResponse.statusCode = Response.statusCode res,
         TransactionResponse.headers = array_sort AscSort (TransformHeaders (getHeaders res)),
         TransactionResponse.body = Response.body res\<rparr>,
      routeResponseUUID = Response.routeResponseUUID res,
      routeUUID = Response.routeUUID res,
      proxied = Request.proxied req\<rparr>"

text \<open>Concrete collaborators and objects for the evaluated examples.\<close>

definition plain_collaborators :: Collaborators where
  "plain_collaborators =
     \<lparr>TemplateParser = (\<lambda>s request env. if s = ''{{boom'' then None else Some s),
      TestHeaderValidity = (\<lambda>name. CHR '' '' \<in> set name),
      MESSAGES_HEADER_PARSING_ERROR = ''-- header parsing error --'',
      MESSAGES_ROUTE_NO_LONGER_EXISTS = ''route no longer exists'',
      MESSAGES_PROXY_ERROR = ''proxy error: '',
      rules_hold = (\<lambda>r request. False),
      random_index = 0\<rparr>"

definition empty_environment :: Environment where
  "empty_environment =
     \<lparr>Environment.uuid = ''env-1'', latency = 0, headers = [], cors = False,
      endpointPrefix = [], proxyMode = False, proxyHost = [], proxyRemovePrefix = False,
      proxyReqHeaders = [], proxyResHeaders = [], routes = []\<rparr>"

definition plain_server :: MockoonServer where
  "plain_server =
     \<lparr>environment = empty_environment,
      options = \<lparr>refreshEnvironmentFunction = None\<rparr>\<rparr>"

definition get_request :: Request where
  "get_request =
     \<lparr>Request.http_method = ''GET'', url = ''/ping'', originalUrl = ''/ping'',
      route_path = None, params = None, query = None, body = [], headers = [],
      proxied = False\<rparr>"

definition ct_html :: Header where
  "ct_html = \<lparr>key = ''Content-Type'', hvalue = ''text/html''\<rparr>"

definition ct_json :: Header where
  "ct_json = \<lparr>key = ''Content-Type'', hvalue = ''application/json''\<rparr>"

definition spaced_header :: Header where
  "spaced_header = \<lparr>key = ''X Bad'', hvalue = ''1''\<rparr>"

definition failing_header :: Header where
  "failing_header = \<lparr>key = ''X-Request-Id'', hvalue = ''{{boom''\<rparr>"

definition x_env :: Header where
  "x_env = \<lparr>key = ''X-Env'', hvalue = ''staging''\<rparr>"

definition x_trace :: Header where
  "x_trace = \<lparr>key = ''X-Trace'', hvalue = ''on''\<rparr>"

definition resp_a :: RouteResponse where
  "resp_a = \<lparr>RouteResponse.uuid = ''resp-a'', statusCode = 200, headers = [], body = ''first'',
              latency = 0, isDefault = False\<rparr>"

definition resp_b :: RouteResponse where
  "resp_b = \<lparr>RouteResponse.uuid = ''resp-b'', statusCode = 201, headers = [], body = ''second'',
              latency = 0, isDefault = False\<rparr>"

definition ping_route :: Route where
  "ping_route = \<lparr>Route.uuid = ''route-1'', http_method = ''get'', endpoint = ''ping'',
                  enabled = True, responses = [resp_a, resp_b], randomResponse = False,
                  sequentialResponse = True\<rparr>"

definition fresh_response :: Response where
  "fresh_response = \<lparr>Response.statusCode = 200, headers = [], body = [], sent = None,
                      routeUUID = None, routeResponseUUID = None\<rparr>"

text \<open>
  Three refresh functions: one whose environment has lost its uuid and its routes, one
  whose environment keeps a uuid and has lost the route, and one that returns nothing.
\<close>

definition refresh_to_unnamed :: "string \<Rightarrow> Environment option" where
  "refresh_to_unnamed u = Some (empty_environment\<lparr>Environment.uuid := []\<rparr>)"

definition refresh_to_routeless :: "string \<Rightarrow> Environment option" where
  "refresh_to_routeless u = Some (empty_environment\<lparr>Environment.uuid := ''env-2''\<rparr>)"

definition refresh_to_nothing :: "string \<Rightarrow> Environment option" where
  "refresh_to_nothing u = None"

definition ping_environment :: Environment where
  "ping_environment = empty_environment\<lparr>routes := [ping_route]\<rparr>"

definition server_with :: "(string \<Rightarrow> Environment option) option \<Rightarrow> MockoonServer" where
  "server_with f = \<lparr>environment = ping_environment, options = \<lparr>refreshEnvironmentFunction = f\<rparr>\<rparr>"

definition logged_request :: Request where
  "logged_request = get_request\<lparr>Request.headers :=
     [(''host'', Some (HString ''localhost:3000'')),
      (''accept'', Some (HArray [''text/html'', ''application/json''])),
      (''x-empty'', None)]\<rparr>"

definition logged_response :: Response where
  "logged_response = fresh_response\<lparr>Response.headers :=
     [(''x-powered'', HString ''mock''),
      (''set-cookie'', HArray [''a=1'', ''b=2'']),
      (''content-type'', HString ''text/plain'')]\<rparr>"

section \<open>Properties of the Header Merger\<close>

lemma toLowerCase_content_type: "toLowerCase ''content-type'' = ''content-type''"
  by code_simp

lemma toLowerCase_Content_Type: "toLowerCase ''Content-Type'' = ''content-type''"
  by code_simp

lemma getHeader_setHeader:
  "getHeader (setHeader hs k v) n = (if toLowerCase n = toLowerCase k then Some v else getHeader hs n)"
  by (simp add: getHeader_def setHeader_def update_conv')

lemma appendHeaderValue_cases:
  "appendHeaderValue cur v = (if truthy cur then HArray (values_of cur @ [v]) else HString v)"
  by (cases "(cur, v)" rule: appendHeaderValue.cases) auto

lemma express_append_appendHeaderValue:
  "express_append hs k v = setHeader hs k (appendHeaderValue (getHeader hs k) v)"
  by (cases "(getHeader hs k, v)" rule: appendHeaderValue.cases) (auto simp: express_append_def Let_def)

lemma target_get_apply_parsed:
  "target_get (apply_parsed tgt h v) (key h) =
     Some (if is_express tgt \<and> toLowerCase (key h) = ''content-type'' then HString v
           else appendHeaderValue (target_get tgt (key h)) v)"
  by (cases tgt)
     (simp_all add: apply_parsed_def express_set_def express_append_appendHeaderValue
        getHeader_setHeader update_conv')

lemma express_step_content_type_count:
  "value_count (getHeader hs ''Content-Type'') \<le> 1 \<Longrightarrow>
   value_count (target_get (setHeader_step ext this req (ExpressResponse hs) h) ''Content-Type'') \<le> 1"
  by (auto simp: setHeader_step_def apply_parsed_def express_set_def express_append_appendHeaderValue
      getHeader_setHeader toLowerCase_Content_Type value_count_def split: option.splits)

lemma setHeader_step_express:
  "\<exists>hs'. setHeader_step ext this req (ExpressResponse hs) h = ExpressResponse hs'"
  by (simp add: setHeader_step_def apply_parsed_def split: option.splits)

lemma express_setHeaders_content_type_count:
  "value_count (getHeader hs ''Content-Type'') \<le> 1 \<Longrightarrow>
   value_count (target_get (setHeaders ext this hdrs (ExpressResponse hs) req) ''Content-Type'') \<le> 1"
proof (induction hdrs arbitrary: hs)
  case Nil
  then show ?case by (simp add: setHeaders_def)
next
  case (Cons h hdrs)
  obtain hs' where hs': "setHeader_step ext this req (ExpressResponse hs) h = ExpressResponse hs'"
    using setHeader_step_express by blast
  have "value_count (getHeader hs' ''Content-Type'') \<le> 1"
    using express_step_content_type_count [OF Cons.prems, of ext this req h] hs' by simp
  from Cons.IH [OF this] show ?case
    by (simp add: setHeaders_def hs')
qed

lemma setHeaders_Cons:
  "setHeaders ext this (h # hdrs) tgt req = setHeaders ext this hdrs (setHeader_step ext this req tgt h) req"
  by (simp add: setHeaders_def)

lemma setHeaders_append:
  "setHeaders ext this (pre @ post) tgt req = setHeaders ext this post (setHeaders ext this pre tgt req) req"
  by (simp add: setHeaders_def)

text \<open>
  Claim C1. The claim asks that a \<^verbatim>\<open>Content-Type\<close> header replace the value on all three
  target shapes, so that no target ends with more than one, and that any other key already
  present be combined into an array. The express branch of \<^verbatim>\<open>setHeaders\<close> replaces
  (server.ts, lines 576-577); the two proxy branches (lines 581-596) do not test the key
  and send \<^verbatim>\<open>Content-Type\<close> through \<^verbatim>\<open>appendHeaderValue\<close>. Evaluated on the code: two
  configured entries leave two values on an outgoing proxied request; one entry leaves two
  values on an incoming proxied response that has a content type, or a second property when
  the configured key is spelled \<^verbatim>\<open>Content-Type\<close>; the same two entries leave one value on an
  express response. A key present with the empty string is overwritten, since the
  present value is tested for truthiness.
\<close>

theorem setHeaders_content_type_duplicated:
  "setHeaders plain_collaborators plain_server [ct_html, ct_json] (ClientRequest []) get_request
     = ClientRequest [(''content-type'', HArray [''text/html'', ''application/json''])]
   \<and> value_count (target_get (setHeaders plain_collaborators plain_server [ct_html, ct_json]
        (ClientRequest []) get_request) ''Content-Type'') = 2
   \<and> setHeaders plain_collaborators plain_server
        [\<lparr>key = ''content-type'', hvalue = ''application/json''\<rparr>]
        (IncomingMessage [(''content-type'', HString ''text/html'')]) get_request
     = IncomingMessage [(''content-type'', HArray [''text/html'', ''application/json''])]
   \<and> setHeaders plain_collaborators plain_server [ct_json]
        (IncomingMessage [(''content-type'', HString ''text/html'')]) get_request
     = IncomingMessage [(''content-type'', HString ''text/html''),
                        (''Content-Type'', HString ''application/json'')]
   \<and> setHeaders plain_collaborators plain_server [ct_html, ct_json] (ExpressResponse []) get_request
     = ExpressResponse [(''content-type'', HString ''application/json'')]
   \<and> setHeaders plain_collaborators plain_server [\<lparr>key = ''X-Trace'', hvalue = ''b''\<rparr>]
        (ExpressResponse [(''x-trace'', HString [])]) get_request
     = ExpressResponse [(''x-trace'', HString ''b'')]"
  by code_simp

text \<open>
  Claim C3. A header with an empty key, an empty value, or a key that
  \<^verbatim>\<open>TestHeaderValidity\<close> reports is skipped: \<^verbatim>\<open>parseHeader\<close> returns \<^verbatim>\<open>null\<close> and raises nothing,
  and the step leaves the target as it is. The remaining headers are still applied:
  \<^verbatim>\<open>setHeaders\<close> on a list that holds the skipped header is the fold of the steps over the
  headers before and after it, and a header \<open>g\<close> that \<^verbatim>\<open>parseHeader\<close> accepts with the value
  \<open>v\<close> is applied with that value whether it stands after or before the skipped one;
  afterwards \<open>v\<close> is the last value under the key of \<open>g\<close>.
\<close>

theorem setHeaders_skips_unusable_header:
  assumes "key h = [] \<or> hvalue h = [] \<or> TestHeaderValidity ext (key h)"
  shows "parseHeader ext this h req = None
         \<and> setHeader_step ext this req tgt h = tgt
         \<and> setHeaders ext this (pre @ h # post) tgt req = setHeaders ext this (pre @ post) tgt req
         \<and> setHeaders ext this (pre @ h # post) tgt req
             = foldl (setHeader_step ext this req) tgt (pre @ post)
         \<and> (parseHeader ext this g req = Some v \<longrightarrow>
               setHeaders ext this [h, g] tgt req = apply_parsed tgt g v
             \<and> setHeaders ext this [g, h] tgt req = apply_parsed tgt g v
             \<and> values_of (target_get (setHeaders ext this [h, g] tgt req) (key g)) \<noteq> []
             \<and> last (values_of (target_get (setHeaders ext this [h, g] tgt req) (key g))) = v)"
proof -
  have p: "parseHeader ext this h req = None"
    using assms by (auto simp: parseHeader_def)
  then have s: "\<And>t. setHeader_step ext this req t h = t"
    by (simp add: setHeader_step_def)
  have a: "setHeaders ext this (pre @ h # post) tgt req = setHeaders ext this (pre @ post) tgt req"
    using s by (simp add: setHeaders_append setHeaders_Cons)
  have b: "setHeaders ext this (pre @ post) tgt req = foldl (setHeader_step ext this req) tgt (pre @ post)"
    by (simp add: setHeaders_def)
  have c: "parseHeader ext this g req = Some v \<longrightarrow>
               setHeaders ext this [h, g] tgt req = apply_parsed tgt g v
             \<and> setHeaders ext this [g, h] tgt req = apply_parsed tgt g v
             \<and> values_of (target_get (setHeaders ext this [h, g] tgt req) (key g)) \<noteq> []
             \<and> last (values_of (target_get (setHeaders ext this [h, g] tgt req) (key g))) = v"
  proof
    assume g: "parseHeader ext this g req = Some v"
    have x: "setHeaders ext this [h, g] tgt req = apply_parsed tgt g v"
      using s g by (simp add: setHeaders_def setHeader_step_def)
    have y: "setHeaders ext this [g, h] tgt req = apply_parsed tgt g v"
      using s g by (simp add: setHeaders_def setHeader_step_def)
    have z: "values_of (target_get (apply_parsed tgt g v) (key g)) \<noteq> []
        \<and> last (values_of (target_get (apply_parsed tgt g v) (key g))) = v"
      by (simp add: target_get_apply_parsed appendHeaderValue_cases)
    show "setHeaders ext this [h, g] tgt req = apply_parsed tgt g v
             \<and> setHeaders ext this [g, h] tgt req = apply_parsed tgt g v
             \<and> values_of (target_get (setHeaders ext this [h, g] tgt req) (key g)) \<noteq> []
             \<and> last (values_of (target_get (setHeaders ext this [h, g] tgt req) (key g))) = v"
      using x y z by simp
  qed
  have ab: "setHeaders ext this (pre @ h # post) tgt req
      = foldl (setHeader_step ext this req) tgt (pre @ post)"
    using a b by (rule trans)
  from p s [of tgt] a ab c show ?thesis
    by blast
qed

theorem setHeaders_skips_unusable_header_witness:
  "TestHeaderValidity plain_collaborators (key spaced_header)
   \<and> parseHeader plain_collaborators plain_server spaced_header get_request = None
   \<and> setHeader_step plain_collaborators plain_server get_request
         (ExpressResponse [(''x-env'', HString ''staging'')]) spaced_header
       = ExpressResponse [(''x-env'', HString ''staging'')]
   \<and> setHeaders plain_collaborators plain_server ([x_env] @ spaced_header # [x_trace])
         (ExpressResponse []) get_request
       = ExpressResponse [(''x-env'', HString ''staging''), (''x-trace'', HString ''on'')]
   \<and> parseHeader plain_collaborators plain_server x_trace get_request = Some ''on''
   \<and> setHeaders plain_collaborators plain_server [spaced_header, x_trace]
         (ExpressResponse [(''x-trace'', HString ''off'')]) get_request
       = ExpressResponse [(''x-trace'', HArray [''off'', ''on''])]
   \<and> setHeaders plain_collaborators plain_server [x_trace, spaced_header]
         (ExpressResponse [(''x-trace'', HString ''off'')]) get_request
       = ExpressResponse [(''x-trace'', HArray [''off'', ''on''])]"
proof -
  have t: "TestHeaderValidity plain_collaborators (key spaced_header)"
    by (simp add: plain_collaborators_def spaced_header_def)
  then have d: "key spaced_header = [] \<or> hvalue spaced_header = []
      \<or> TestHeaderValidity plain_collaborators (key spaced_header)"
    by simp
  have g: "parseHeader plain_collaborators plain_server x_trace get_request = Some ''on''"
    by code_simp
  have e1: "foldl (setHeader_step plain_collaborators plain_server get_request) (ExpressResponse [])
        ([x_env] @ [x_trace])
      = ExpressResponse [(''x-env'', HString ''staging''), (''x-trace'', HString ''on'')]"
    by code_simp
  have e2: "apply_parsed (ExpressResponse [(''x-trace'', HString ''off'')]) x_trace ''on''
      = ExpressResponse [(''x-trace'', HArray [''off'', ''on''])]"
    by code_simp
  note w1 = setHeaders_skips_unusable_header
      [OF d, where this = plain_server and req = get_request
         and tgt = "ExpressResponse [(''x-env'', HString ''staging'')]"
         and pre = "[]" and post = "[]" and g = x_trace and v = "''on''"]
  note w2 = setHeaders_skips_unusable_header
      [OF d, where this = plain_server and req = get_request and tgt = "ExpressResponse []"
         and pre = "[x_env]" and post = "[x_trace]" and g = x_trace and v = "''on''"]
  note w3 = setHeaders_skips_unusable_header
      [OF d, where this = plain_server and req = get_request
         and tgt = "ExpressResponse [(''x-trace'', HString ''off'')]"
         and pre = "[]" and post = "[]" and g = x_trace and v = "''on''"]
  have r1: "parseHeader plain_collaborators plain_server spaced_header get_request = None"
    using w1 by (rule conjunct1)
  have r2: "setHeader_step plain_collaborators plain_server get_request
         (ExpressResponse [(''x-env'', HString ''staging'')]) spaced_header
       = ExpressResponse [(''x-env'', HString ''staging'')]"
    using w1 by blast
  have "setHeaders plain_collaborators plain_server ([x_env] @ spaced_header # [x_trace])
         (ExpressResponse []) get_request
       = foldl (setHeader_step plain_collaborators plain_server get_request) (ExpressResponse [])
           ([x_env] @ [x_trace])"
    using w2 by blast
  then have r3: "setHeaders plain_collaborators plain_server ([x_env] @ spaced_header # [x_trace])
         (ExpressResponse []) get_request
       = ExpressResponse [(''x-env'', HString ''staging''), (''x-trace'', HString ''on'')]"
    by (simp only: e1)
  have "setHeaders plain_collaborators plain_server [spaced_header, x_trace]
         (ExpressResponse [(''x-trace'', HString ''off'')]) get_request
       = apply_parsed (ExpressResponse [(''x-trace'', HString ''off'')]) x_trace ''on''"
    using w3 g by blast
  then have r4: "setHeaders plain_collaborators plain_server [spaced_header, x_trace]
         (ExpressResponse [(''x-trace'', HString ''off'')]) get_request
       = ExpressResponse [(''x-trace'', HArray [''off'', ''on''])]"
    by (simp only: e2)
  have "setHeaders plain_collaborators plain_server [x_trace, spaced_header]
         (ExpressResponse [(''x-trace'', HString ''off'')]) get_request
       = apply_parsed (ExpressResponse [(''x-trace'', HString ''off'')]) x_trace ''on''"
    using w3 g by blast
  then have r5: "setHeaders plain_collaborators plain_server [x_trace, spaced_header]
         (ExpressResponse [(''x-trace'', HString ''off'')]) get_request
       = ExpressResponse [(''x-trace'', HArray [''off'', ''on''])]"
    by (simp only: e2)
  from t r1 r2 r3 g r4 r5 show ?thesis
    by blast
qed

text \<open>
  Claim C4. When the template engine throws on a header that passes the three tests,
  \<^verbatim>\<open>parseHeader\<close> returns the catalogue's header-parsing message; the step applies the
  header with that message as its value (it is the last value under the key afterwards),
  and \<^verbatim>\<open>setHeaders\<close> goes on with the headers that follow.
\<close>

theorem parseHeader_render_failure:
  assumes "key h \<noteq> []" and "hvalue h \<noteq> []" and "\<not> TestHeaderValidity ext (key h)"
    and "TemplateParser ext (hvalue h) req (environment this) = None"
  shows "parseHeader ext this h req = Some (MESSAGES_HEADER_PARSING_ERROR ext)
         \<and> setHeader_step ext this req tgt h = apply_parsed tgt h (MESSAGES_HEADER_PARSING_ERROR ext)
         \<and> values_of (target_get (setHeader_step ext this req tgt h) (key h)) \<noteq> []
         \<and> last (values_of (target_get (setHeader_step ext this req tgt h) (key h)))
             = MESSAGES_HEADER_PARSING_ERROR ext
         \<and> setHeaders ext this (pre @ h # post) tgt req
             = setHeaders ext this post
                 (apply_parsed (setHeaders ext this pre tgt req) h (MESSAGES_HEADER_PARSING_ERROR ext))
                 req"
proof -
  have p: "parseHeader ext this h req = Some (MESSAGES_HEADER_PARSING_ERROR ext)"
    using assms by (simp add: parseHeader_def)
  then have s: "\<And>t. setHeader_step ext this req t h = apply_parsed t h (MESSAGES_HEADER_PARSING_ERROR ext)"
    by (simp add: setHeader_step_def)
  have v: "values_of (target_get (apply_parsed tgt h (MESSAGES_HEADER_PARSING_ERROR ext)) (key h)) \<noteq> []
      \<and> last (values_of (target_get (apply_parsed tgt h (MESSAGES_HEADER_PARSING_ERROR ext)) (key h)))
          = MESSAGES_HEADER_PARSING_ERROR ext"
    by (simp add: target_get_apply_parsed appendHeaderValue_cases)
  show ?thesis
    using p s v by (simp add: setHeaders_append setHeaders_Cons)
qed

theorem parseHeader_render_failure_witness:
  "key failing_header \<noteq> [] \<and> hvalue failing_header \<noteq> []
   \<and> \<not> TestHeaderValidity plain_collaborators (key failing_header)
   \<and> TemplateParser plain_collaborators (hvalue failing_header) get_request (environment plain_server) = None
   \<and> parseHeader plain_collaborators plain_server failing_header get_request
       = Some ''-- header parsing error --''
   \<and> target_get (setHeaders plain_collaborators plain_server ([ct_html] @ failing_header # [ct_json])
         (ExpressResponse []) get_request) ''x-request-id''
       = Some (HString ''-- header parsing error --'')
   \<and> target_get (setHeaders plain_collaborators plain_server ([ct_html] @ failing_header # [ct_json])
         (ExpressResponse []) get_request) ''content-type''
       = Some (HString ''application/json'')"
proof -
  have a: "key failing_header \<noteq> []" and b: "hvalue failing_header \<noteq> []"
    and c: "\<not> TestHeaderValidity plain_collaborators (key failing_header)"
    and d: "TemplateParser plain_collaborators (hvalue failing_header) get_request (environment plain_server) = None"
    by (simp_all add: failing_header_def plain_collaborators_def)
  have m: "MESSAGES_HEADER_PARSING_ERROR plain_collaborators = ''-- header parsing error --''"
    by (simp add: plain_collaborators_def)
  have e: "target_get (setHeaders plain_collaborators plain_server [ct_json]
         (apply_parsed (setHeaders plain_collaborators plain_server [ct_html] (ExpressResponse []) get_request)
            failing_header ''-- header parsing error --'') get_request) ''x-request-id''
       = Some (HString ''-- header parsing error --'')"
    by code_simp
  have f: "target_get (setHeaders plain_collaborators plain_server [ct_json]
         (apply_parsed (setHeaders plain_collaborators plain_server [ct_html] (ExpressResponse []) get_request)
            failing_header ''-- header parsing error --'') get_request) ''content-type''
       = Some (HString ''application/json'')"
    by code_simp
  show ?thesis
    using a b c d e f
      parseHeader_render_failure [OF a b c d, of "ExpressResponse []" "[ct_html]" "[ct_json]"]
    by (simp add: m)
qed

section \<open>Properties of the path normalisation\<close>

lemma replace_slash_runs_Nil_iff: "replace_slash_runs xs = [] \<longleftrightarrow> xs = []"
  by (induction xs rule: replace_slash_runs.induct) auto

lemma hd_replace_slash_runs: "hd (replace_slash_runs xs) = hd xs"
  by (induction xs rule: replace_slash_runs.induct) auto

lemma has_double_slash_Cons:
  "has_double_slash (c # ws) = ((c = CHR ''/'' \<and> ws \<noteq> [] \<and> hd ws = CHR ''/'') \<or> has_double_slash ws)"
  by (cases ws) auto

lemma hd_dropWhile_slash:
  "dropWhile (\<lambda>x. x = CHR ''/'') cs = [] \<or> hd (dropWhile (\<lambda>x. x = CHR ''/'') cs) \<noteq> CHR ''/''"
  by (induction cs) auto

lemma no_double_slash_after: "\<not> has_double_slash (replace_slash_runs s)"
proof (induction s rule: replace_slash_runs.induct)
  case 1
  then show ?case by simp
next
  case (2 c)
  then show ?case by simp
next
  case (3 c d cs)
  show ?case
  proof (cases "c = CHR ''/'' \<and> d = CHR ''/''")
    case True
    with 3 show ?thesis
      using hd_dropWhile_slash [of cs]
      by (auto simp: has_double_slash_Cons replace_slash_runs_Nil_iff hd_replace_slash_runs)
  next
    case False
    with 3 show ?thesis
      by (auto simp: has_double_slash_Cons replace_slash_runs_Nil_iff hd_replace_slash_runs)
  qed
qed

lemma replace_slash_runs_fixed: "\<not> has_double_slash s \<Longrightarrow> replace_slash_runs s = s"
  by (induction s rule: replace_slash_runs.induct) auto

lemma replace_slash_runs_append:
  "xs = [] \<or> last xs \<noteq> CHR ''/'' \<Longrightarrow>
   replace_slash_runs (xs @ zs) = replace_slash_runs xs @ replace_slash_runs zs"
proof (induction xs rule: replace_slash_runs.induct)
  case 1
  then show ?case by simp
next
  case (2 c)
  then show ?case by (cases zs) auto
next
  case (3 c d cs)
  show ?case
  proof (cases "c = CHR ''/'' \<and> d = CHR ''/''")
    case True
    from "3.prems" have ne: "cs \<noteq> []" and l: "last cs \<noteq> CHR ''/''"
      using True by (auto split: if_splits)
    then have ex: "last cs \<in> set cs"
      by simp
    have dw: "dropWhile (\<lambda>x. x = CHR ''/'') (cs @ zs) = dropWhile (\<lambda>x. x = CHR ''/'') cs @ zs"
      using ex l by (rule dropWhile_append1)
    have dne: "dropWhile (\<lambda>x. x = CHR ''/'') cs \<noteq> []"
      using ex l by (auto simp: dropWhile_eq_Nil_conv)
    have "last (takeWhile (\<lambda>x. x = CHR ''/'') cs @ dropWhile (\<lambda>x. x = CHR ''/'') cs)
        = last (dropWhile (\<lambda>x. x = CHR ''/'') cs)"
      using dne by (rule last_appendR)
    then have "last (dropWhile (\<lambda>x. x = CHR ''/'') cs) = last cs"
      by simp
    with l dne have "replace_slash_runs (dropWhile (\<lambda>x. x = CHR ''/'') cs @ zs)
        = replace_slash_runs (dropWhile (\<lambda>x. x = CHR ''/'') cs) @ replace_slash_runs zs"
      using "3.IH"(1) True by simp
    with True dw show ?thesis by simp
  next
    case False
    with 3 show ?thesis by (auto split: if_splits)
  qed
qed

lemma replace_slash_runs_run:
  "ys = [] \<or> hd ys \<noteq> CHR ''/'' \<Longrightarrow>
   replace_slash_runs (replicate (Suc (Suc n)) CHR ''/'' @ ys) = CHR ''/'' # replace_slash_runs ys"
proof -
  assume a: "ys = [] \<or> hd ys \<noteq> CHR ''/''"
  have "dropWhile (\<lambda>x. x = CHR ''/'') (replicate n CHR ''/'' @ ys) = ys"
    using a by (induction n) (auto simp: dropWhile_eq_self_iff)
  then show ?thesis by simp
qed

lemma url_deduplicateSlashes: "url (deduplicateSlashes r) = replace_slash_runs (url r)"
  by (simp add: deduplicateSlashes_def)

text \<open>
  Claim C5. \<^verbatim>\<open>deduplicateSlashes\<close> replaces every maximal run of two or more slashes of the
  request URL by one slash: a run of \<open>n + 2\<close> slashes that no slash precedes or follows
  becomes a single slash between the normalised parts on its two sides; a URL without two
  adjacent slashes is returned as it is; the result never has two adjacent slashes; and
  \<^verbatim>\<open>/api//users///1\<close> becomes \<^verbatim>\<open>/api/users/1\<close>. \<^verbatim>\<open>start\<close> registers the stage before the
  routes, so it runs before route matching.
\<close>

theorem deduplicateSlashes_collapses_runs:
  "((xs = [] \<or> last xs \<noteq> CHR ''/'') \<and> (ys = [] \<or> hd ys \<noteq> CHR ''/'') \<longrightarrow>
      url (deduplicateSlashes (req\<lparr>url := xs @ replicate (Suc (Suc n)) CHR ''/'' @ ys\<rparr>))
        = url (deduplicateSlashes (req\<lparr>url := xs\<rparr>)) @ ''/''
            @ url (deduplicateSlashes (req\<lparr>url := ys\<rparr>)))
   \<and> (\<not> has_double_slash (url req) \<longrightarrow> deduplicateSlashes req = req)
   \<and> \<not> has_double_slash (url (deduplicateSlashes req))
   \<and> url (deduplicateSlashes (req\<lparr>url := ''/api//users///1''\<rparr>)) = ''/api/users/1''
   \<and> DeduplicateSlashes \<in> set (takeWhile (\<lambda>s. s \<noteq> SetRoutes) start_stages)"
proof -
  have a: "(xs = [] \<or> last xs \<noteq> CHR ''/'') \<and> (ys = [] \<or> hd ys \<noteq> CHR ''/'') \<longrightarrow>
      url (deduplicateSlashes (req\<lparr>url := xs @ replicate (Suc (Suc n)) CHR ''/'' @ ys\<rparr>))
        = url (deduplicateSlashes (req\<lparr>url := xs\<rparr>)) @ ''/''
            @ url (deduplicateSlashes (req\<lparr>url := ys\<rparr>))"
    using replace_slash_runs_append [of xs "replicate (Suc (Suc n)) CHR ''/'' @ ys"]
      replace_slash_runs_run [of ys n]
    by (simp add: url_deduplicateSlashes)
  have b: "\<not> has_double_slash (url req) \<longrightarrow> deduplicateSlashes req = req"
    by (simp add: deduplicateSlashes_def replace_slash_runs_fixed)
  have c: "\<not> has_double_slash (url (deduplicateSlashes req))"
    by (simp add: url_deduplicateSlashes no_double_slash_after)
  have d: "url (deduplicateSlashes (req\<lparr>url := ''/api//users///1''\<rparr>)) = ''/api/users/1''"
    by (simp add: url_deduplicateSlashes)
  have e: "DeduplicateSlashes \<in> set (takeWhile (\<lambda>s. s \<noteq> SetRoutes) start_stages)"
    by (simp add: start_stages_def)
  from a b c d e show ?thesis by blast
qed

theorem deduplicateSlashes_collapses_runs_witness:
  "last ''/a?next=http:'' \<noteq> CHR ''/'' \<and> hd ''host'' \<noteq> CHR ''/''
   \<and> url (deduplicateSlashes (get_request\<lparr>url := ''/a?next=http:'' @ replicate (Suc (Suc 0)) CHR ''/'' @ ''host''\<rparr>))
       = ''/a?next=http:/host''
   \<and> \<not> has_double_slash (url get_request)
   \<and> deduplicateSlashes get_request = get_request"
proof -
  have h: "\<not> has_double_slash (url get_request)"
    by (simp add: get_request_def)
  have l: "last ''/a?next=http:'' \<noteq> CHR ''/''" and k: "hd ''host'' \<noteq> CHR ''/''"
    by simp_all
  have x: "url (deduplicateSlashes (get_request\<lparr>url := ''/a?next=http:''\<rparr>)) = ''/a?next=http:''"
    by (simp add: url_deduplicateSlashes)
  have y: "url (deduplicateSlashes (get_request\<lparr>url := ''host''\<rparr>)) = ''host''"
    by (simp add: url_deduplicateSlashes)
  show ?thesis
    using h l k x y
      deduplicateSlashes_collapses_runs
        [where xs = "''/a?next=http:''" and ys = "''host''" and req = get_request and n = 0]
    by simp
qed

section \<open>Properties of the live refresh\<close>

lemma refreshEnvironment_replaces:
  "refreshEnvironmentFunction (options this) = Some f \<Longrightarrow>
   Environment.uuid (environment this) \<noteq> [] \<Longrightarrow>
   f (Environment.uuid (environment this)) = Some e \<Longrightarrow>
   refreshEnvironment this = this\<lparr>environment := e\<rparr>"
  by (simp add: refreshEnvironment_def)

lemma refreshEnvironment_keeps:
  "refreshEnvironmentFunction (options this) = None
   \<or> Environment.uuid (environment this) = []
   \<or> (refreshEnvironmentFunction (options this) = Some f
       \<and> f (Environment.uuid (environment this)) = None) \<Longrightarrow>
   refreshEnvironment this = this"
  by (cases "refreshEnvironmentFunction (options this)") (auto simp: refreshEnvironment_def)

lemma refreshEnvironment_changed:
  assumes "environment (refreshEnvironment this) \<noteq> environment this"
  shows "\<exists>g. refreshEnvironmentFunction (options this) = Some g
             \<and> Environment.uuid (environment this) \<noteq> []
             \<and> g (Environment.uuid (environment this)) = Some (environment (refreshEnvironment this))"
proof (cases "refreshEnvironmentFunction (options this)")
  case None
  with assms show ?thesis by (simp add: refreshEnvironment_def)
next
  case (Some g)
  show ?thesis
  proof (cases "g (Environment.uuid (environment this))")
    case None
    with Some assms show ?thesis by (simp add: refreshEnvironment_def)
  next
    case (Some e)
    with \<open>refreshEnvironmentFunction (options this) = Some g\<close> assms show ?thesis
      by (cases "Environment.uuid (environment this) = []") (simp_all add: refreshEnvironment_def)
  qed
qed

lemma refreshEnvironment_keeps_options: "options (refreshEnvironment this) = options this"
  by (simp add: refreshEnvironment_def split: option.splits)

text \<open>
  Claim C8. \<^verbatim>\<open>refreshEnvironment\<close> replaces the held environment by \<open>e\<close> when a refresh
  function is configured, the held environment has a uuid and the function returns \<open>e\<close>
  for it. With no function, with no uuid, or when the function returns nothing, the server
  object is unchanged. So a changed environment implies the three conditions; the options
  are never touched.
\<close>

theorem refreshEnvironment_replaces_only_when:
  "(refreshEnvironmentFunction (options this) = Some f
      \<and> Environment.uuid (environment this) \<noteq> []
      \<and> f (Environment.uuid (environment this)) = Some e
      \<longrightarrow> refreshEnvironment this = this\<lparr>environment := e\<rparr>)
   \<and> (refreshEnvironmentFunction (options this) = None
      \<or> Environment.uuid (environment this) = []
      \<or> (refreshEnvironmentFunction (options this) = Some f
          \<and> f (Environment.uuid (environment this)) = None)
      \<longrightarrow> refreshEnvironment this = this)
   \<and> (environment (refreshEnvironment this) \<noteq> environment this
      \<longrightarrow> (\<exists>g. refreshEnvironmentFunction (options this) = Some g
             \<and> Environment.uuid (environment this) \<noteq> []
             \<and> g (Environment.uuid (environment this)) = Some (environment (refreshEnvironment this))))
   \<and> options (refreshEnvironment this) = options this"
  using refreshEnvironment_replaces [of this f e] refreshEnvironment_keeps [of this f]
    refreshEnvironment_changed [of this] refreshEnvironment_keeps_options [of this]
  by blast

theorem refreshEnvironment_replaces_only_when_witness:
  "refreshEnvironmentFunction (options (server_with (Some refresh_to_routeless))) = Some refresh_to_routeless
   \<and> Environment.uuid (environment (server_with (Some refresh_to_routeless))) \<noteq> []
   \<and> refresh_to_routeless (Environment.uuid (environment (server_with (Some refresh_to_routeless))))
       = Some (empty_environment\<lparr>Environment.uuid := ''env-2''\<rparr>)
   \<and> refreshEnvironment (server_with (Some refresh_to_routeless))
       = (server_with (Some refresh_to_routeless))
           \<lparr>environment := empty_environment\<lparr>Environment.uuid := ''env-2''\<rparr>\<rparr>
   \<and> refreshEnvironmentFunction (options (server_with (Some refresh_to_nothing))) = Some refresh_to_nothing
   \<and> refresh_to_nothing (Environment.uuid (environment (server_with (Some refresh_to_nothing)))) = None
   \<and> refreshEnvironment (server_with (Some refresh_to_nothing)) = server_with (Some refresh_to_nothing)
   \<and> refreshEnvironmentFunction (options (server_with None)) = None
   \<and> refreshEnvironment (server_with None) = server_with None"
proof -
  have a: "refreshEnvironmentFunction (options (server_with (Some refresh_to_routeless))) = Some refresh_to_routeless"
    and b: "Environment.uuid (environment (server_with (Some refresh_to_routeless))) \<noteq> []"
    and c: "refresh_to_routeless (Environment.uuid (environment (server_with (Some refresh_to_routeless))))
       = Some (empty_environment\<lparr>Environment.uuid := ''env-2''\<rparr>)"
    by (simp_all add: server_with_def refresh_to_routeless_def ping_environment_def empty_environment_def)
  have d: "refreshEnvironmentFunction (options (server_with (Some refresh_to_nothing))) = Some refresh_to_nothing"
    and e: "refresh_to_nothing (Environment.uuid (environment (server_with (Some refresh_to_nothing)))) = None"
    and f: "refreshEnvironmentFunction (options (server_with None)) = None"
    by (simp_all add: server_with_def refresh_to_nothing_def)
  have t1: "refreshEnvironment (server_with (Some refresh_to_routeless))
       = (server_with (Some refresh_to_routeless))
           \<lparr>environment := empty_environment\<lparr>Environment.uuid := ''env-2''\<rparr>\<rparr>"
    using a b c
      refreshEnvironment_replaces_only_when
        [where this = "server_with (Some refresh_to_routeless)" and f = refresh_to_routeless
           and e = "empty_environment\<lparr>Environment.uuid := ''env-2''\<rparr>"]
    by blast
  have t2: "refreshEnvironment (server_with (Some refresh_to_nothing)) = server_with (Some refresh_to_nothing)"
    using d e
      refreshEnvironment_replaces_only_when
        [where this = "server_with (Some refresh_to_nothing)" and f = refresh_to_nothing]
    by blast
  have t3: "refreshEnvironment (server_with None) = server_with None"
    using f refreshEnvironment_replaces_only_when [where this = "server_with None"]
    by blast
  from a b c d e f t1 t2 t3 show ?thesis
    by blast
qed

lemma refreshEnvironment_idle:
  "refreshEnvironmentFunction (options this) = None \<or> Environment.uuid (environment this) = []
   \<Longrightarrow> refreshEnvironment this = this"
  by (auto simp: refreshEnvironment_def split: option.splits)

text \<open>
  Claim C10. With no refresh function, or with an environment that has no uuid,
  \<^verbatim>\<open>getRefreshedRoute\<close> returns the declared route, before and after the handler's refresh
  (which changes nothing then), and the route handler never takes the 404 branch.
\<close>

theorem getRefreshedRoute_without_refresh:
  assumes "refreshEnvironmentFunction (options this) = None \<or> Environment.uuid (environment this) = []"
  shows "getRefreshedRoute this r = Some r
         \<and> getRefreshedRoute (refreshEnvironment this) r = Some r
         \<and> snd (snd (route_handler ext r (this, n) req res)) \<noteq> RouteGone"
proof -
  have a: "getRefreshedRoute this r = Some r"
    using assms by (auto simp: getRefreshedRoute_def)
  have b: "refreshEnvironment this = this"
    using assms by (rule refreshEnvironment_idle)
  show ?thesis
    using a b by (simp add: route_handler_def Let_def split: option.splits)
qed

theorem getRefreshedRoute_without_refresh_witness:
  "refreshEnvironmentFunction (options (server_with None)) = None
   \<and> getRefreshedRoute (server_with None) ping_route = Some ping_route
   \<and> snd (snd (route_handler plain_collaborators ping_route (server_with None, 1)
               get_request fresh_response)) \<noteq> RouteGone"
proof -
  have a: "refreshEnvironmentFunction (options (server_with None)) = None"
    by (simp add: server_with_def)
  then have "refreshEnvironmentFunction (options (server_with None)) = None
      \<or> Environment.uuid (environment (server_with None)) = []"
    by simp
  from getRefreshedRoute_without_refresh [OF this, of ping_route plain_collaborators 1 get_request fresh_response]
    a show ?thesis by simp
qed

section \<open>Properties of the error responses\<close>

text \<open>
  Claim C6, as the code has it. When a refresh function is configured, the refreshed
  environment has a uuid, and no route of the refreshed environment has the declared
  route's uuid, the handler answers with status 404, content type \<^verbatim>\<open>text/plain\<close> and the
  catalogue's message as body, selects no response and leaves the counter as it was.
\<close>

theorem route_handler_route_gone:
  assumes "refreshEnvironmentFunction (options this) \<noteq> None"
    and "Environment.uuid (environment (refreshEnvironment this)) \<noteq> []"
    and "Route.uuid declaredRoute \<notin> set (map Route.uuid (routes (environment (refreshEnvironment this))))"
  shows "snd (snd (route_handler ext declaredRoute (this, n) req res)) = RouteGone
         \<and> snd (fst (route_handler ext declaredRoute (this, n) req res)) = n
         \<and> Response.statusCode (fst (snd (route_handler ext declaredRoute (this, n) req res))) = 404
         \<and> getHeader (Response.headers (fst (snd (route_handler ext declaredRoute (this, n) req res))))
               ''Content-Type'' = Some (HString ''text/plain'')
         \<and> Response.body (fst (snd (route_handler ext declaredRoute (this, n) req res)))
               = MESSAGES_ROUTE_NO_LONGER_EXISTS ext
         \<and> sent (fst (snd (route_handler ext declaredRoute (this, n) req res)))
               = Some (MESSAGES_ROUTE_NO_LONGER_EXISTS ext)"
proof -
  have "find (\<lambda>route. Route.uuid route = Route.uuid declaredRoute)
          (routes (environment (refreshEnvironment this))) = None"
    using assms(3) by (fastforce simp: find_None_iff image_iff)
  then have g: "getRefreshedRoute (refreshEnvironment this) declaredRoute = None"
    using assms(1,2) by (simp add: getRefreshedRoute_def refreshEnvironment_keeps_options)
  show ?thesis
    by (simp add: route_handler_def g Let_def sendError_def express_set_def getHeader_setHeader
        split: option.splits)
qed

theorem route_handler_route_gone_witness:
  "refreshEnvironmentFunction (options (server_with (Some refresh_to_routeless))) \<noteq> None
   \<and> Environment.uuid (environment (refreshEnvironment (server_with (Some refresh_to_routeless)))) \<noteq> []
   \<and> Route.uuid ping_route
       \<notin> set (map Route.uuid
                (routes (environment (refreshEnvironment (server_with (Some refresh_to_routeless))))))
   \<and> snd (snd (route_handler plain_collaborators ping_route
               (server_with (Some refresh_to_routeless), 3) get_request fresh_response)) = RouteGone
   \<and> snd (fst (route_handler plain_collaborators ping_route
               (server_with (Some refresh_to_routeless), 3) get_request fresh_response)) = 3
   \<and> Response.statusCode (fst (snd (route_handler plain_collaborators ping_route
               (server_with (Some refresh_to_routeless), 3) get_request fresh_response))) = 404
   \<and> Response.body (fst (snd (route_handler plain_collaborators ping_route
               (server_with (Some refresh_to_routeless), 3) get_request fresh_response)))
       = ''route no longer exists''"
proof -
  have a: "refreshEnvironmentFunction (options (server_with (Some refresh_to_routeless))) \<noteq> None"
    by (simp add: server_with_def)
  have r: "environment (refreshEnvironment (server_with (Some refresh_to_routeless)))
      = empty_environment\<lparr>Environment.uuid := ''env-2''\<rparr>"
    by (simp add: refreshEnvironment_def server_with_def refresh_to_routeless_def
        ping_environment_def empty_environment_def)
  have b: "Environment.uuid (environment (refreshEnvironment (server_with (Some refresh_to_routeless)))) \<noteq> []"
    by (simp add: r)
  have c: "Route.uuid ping_route
       \<notin> set (map Route.uuid
                (routes (environment (refreshEnvironment (server_with (Some refresh_to_routeless))))))"
    by (simp add: r empty_environment_def)
  have m: "MESSAGES_ROUTE_NO_LONGER_EXISTS plain_collaborators = ''route no longer exists''"
    by (simp add: plain_collaborators_def)
  show ?thesis
    using a b c route_handler_route_gone [OF a b c, of plain_collaborators 3 get_request fresh_response]
    by (simp add: m)
qed

text \<open>
  Claim C6 as stated fails when the refreshed environment has no uuid:
  \<^verbatim>\<open>getRefreshedRoute\<close> then returns the declared route without looking at the route list.
  Here the refresh function returns an environment with an empty uuid and no routes; the
  handler does not take the 404 branch, the status is not 404 and nothing is sent as an
  error, whatever the selector returns.
\<close>

theorem route_handler_route_gone_counterexample:
  "refreshEnvironmentFunction (options (server_with (Some refresh_to_unnamed))) \<noteq> None
   \<and> Route.uuid ping_route
       \<notin> set (map Route.uuid
                (routes (environment (refreshEnvironment (server_with (Some refresh_to_unnamed))))))
   \<and> snd (snd (route_handler plain_collaborators ping_route
               (server_with (Some refresh_to_unnamed), initial_requestNumber) get_request fresh_response))
       \<noteq> RouteGone
   \<and> Response.statusCode (fst (snd (route_handler plain_collaborators ping_route
               (server_with (Some refresh_to_unnamed), initial_requestNumber) get_request fresh_response)))
       \<noteq> 404
   \<and> sent (fst (snd (route_handler plain_collaborators ping_route
               (server_with (Some refresh_to_unnamed), initial_requestNumber) get_request fresh_response)))
       = None"
proof -
  have r: "refreshEnvironment (server_with (Some refresh_to_unnamed))
      = \<lparr>environment = empty_environment\<lparr>Environment.uuid := []\<rparr>,
         options = \<lparr>refreshEnvironmentFunction = Some refresh_to_unnamed\<rparr>\<rparr>"
    by (simp add: refreshEnvironment_def server_with_def refresh_to_unnamed_def
        ping_environment_def empty_environment_def)
  have g: "getRefreshedRoute (refreshEnvironment (server_with (Some refresh_to_unnamed))) ping_route
      = Some ping_route"
    by (simp add: r getRefreshedRoute_def)
  have f: "Response.statusCode fresh_response = 200" and e: "sent fresh_response = None"
    by (simp_all add: fresh_response_def)
  have h: "snd (snd (route_handler plain_collaborators ping_route
               (server_with (Some refresh_to_unnamed), initial_requestNumber) get_request fresh_response))
       \<noteq> RouteGone
     \<and> Response.statusCode (fst (snd (route_handler plain_collaborators ping_route
               (server_with (Some refresh_to_unnamed), initial_requestNumber) get_request fresh_response)))
       = 200
     \<and> sent (fst (snd (route_handler plain_collaborators ping_route
               (server_with (Some refresh_to_unnamed), initial_requestNumber) get_request fresh_response)))
       = None"
    unfolding route_handler_def Let_def fst_conv snd_conv g
    by (simp add: f e split: option.splits)
  have n: "Route.uuid ping_route
       \<notin> set (map Route.uuid
                (routes (environment (refreshEnvironment (server_with (Some refresh_to_unnamed))))))"
    by (simp add: r empty_environment_def)
  have o: "refreshEnvironmentFunction (options (server_with (Some refresh_to_unnamed))) \<noteq> None"
    by (simp add: server_with_def)
  from h n o show ?thesis
    by simp
qed

text \<open>
  Claim C7. The proxy's error callback emits one \<^verbatim>\<open>error\<close> event with the code
  \<^verbatim>\<open>PROXY_ERROR\<close> and the error, and sends status 504 with content type \<^verbatim>\<open>text/plain\<close> and a
  body made of the catalogue's prefix, the held environment's \<^verbatim>\<open>proxyHost\<close>, the request's
  \<^verbatim>\<open>url\<close>, a colon and the error's text; so the body contains the host, the path and the
  error text.
\<close>

theorem onError_proxy_failure:
  "fst (onError ext this err req res) = [ErrorEvent PROXY_ERROR err]
   \<and> Response.statusCode (snd (onError ext this err req res)) = 504
   \<and> getHeader (Response.headers (snd (onError ext this err req res))) ''Content-Type''
       = Some (HString ''text/plain'')
   \<and> Response.body (snd (onError ext this err req res))
       = MESSAGES_PROXY_ERROR ext @ proxyHost (environment this) @ url req @ '': '' @ err
   \<and> sent (snd (onError ext this err req res)) = Some (Response.body (snd (onError ext this err req res)))
   \<and> sublist (proxyHost (environment this)) (Response.body (snd (onError ext this err req res)))
   \<and> sublist (url req) (Response.body (snd (onError ext this err req res)))
   \<and> sublist err (Response.body (snd (onError ext this err req res)))"
proof -
  have b: "Response.body (snd (onError ext this err req res))
       = MESSAGES_PROXY_ERROR ext @ proxyHost (environment this) @ url req @ '': '' @ err"
    by (simp add: onError_def sendError_def)
  have s1: "sublist (proxyHost (environment this))
      (MESSAGES_PROXY_ERROR ext @ proxyHost (environment this) @ url req @ '': '' @ err)"
    by (rule sublist_appendI)
  have s2: "sublist (url req)
      ((MESSAGES_PROXY_ERROR ext @ proxyHost (environment this)) @ url req @ '': '' @ err)"
    by (rule sublist_appendI)
  have s3: "sublist err
      ((MESSAGES_PROXY_ERROR ext @ proxyHost (environment this) @ url req @ '': '') @ err @ [])"
    by (rule sublist_appendI)
  show ?thesis
    using s1 s2 s3
    by (simp add: b) (simp add: onError_def sendError_def express_set_def getHeader_setHeader)
qed

section \<open>Properties of the sequential selection\<close>

lemma route_handler_sequential_step:
  assumes "getRefreshedRoute (refreshEnvironment this) d = Some r"
    and "sequentialResponse r" and "responses r \<noteq> []"
  shows "snd (snd (route_handler ext d (this, n) req res))
           = Chosen (responses r ! ((n - 1) mod length (responses r)))
         \<and> snd (fst (route_handler ext d (this, n) req res)) = Suc n"
  using assms by (simp add: route_handler_def Let_def chooseResponse_def)

lemma serve_sequential_from:
  assumes "\<forall>x\<in>set reqs. getRefreshedRoute (refreshEnvironment (fst x)) d = Some r"
    and "sequentialResponse r" and "responses r \<noteq> []"
  shows "serve ext d n reqs
           = (map (\<lambda>k. Chosen (responses r ! ((k - 1) mod length (responses r))))
                [n..<n + length reqs],
              n + length reqs)"
  using assms(1)
proof (induction reqs arbitrary: n)
  case Nil
  then show ?case by simp
next
  case (Cons x reqs)
  obtain this req res where x: "x = (this, req, res)"
    by (cases x) auto
  have g: "getRefreshedRoute (refreshEnvironment this) d = Some r"
    using Cons.prems x by simp
  note step = route_handler_sequential_step [OF g assms(2) assms(3), of ext n req res]
  have ih: "serve ext d (Suc n) reqs
           = (map (\<lambda>k. Chosen (responses r ! ((k - 1) mod length (responses r))))
                [Suc n..<Suc n + length reqs],
              Suc n + length reqs)"
    using Cons.IH [of "Suc n"] Cons.prems by (simp del: upt_Suc)
  have u: "[n..<n + length (x # reqs)] = n # [Suc n..<Suc n + length reqs]"
    by (simp add: upt_conv_Cons del: upt_Suc)
  show ?case
    unfolding u using step ih by (simp add: x Let_def del: upt_Suc)
qed

lemma shifted_indices:
  "map (\<lambda>k. f (k - 1)) [1..<Suc m] = map f [0..<m]"
proof -
  have "[1..<Suc m] = map Suc [0..<m]"
    by (simp add: map_Suc_upt del: upt_Suc)
  then show ?thesis
    by (simp add: comp_def del: upt_Suc)
qed

lemma cyclic_twice:
  "map (\<lambda>k. rs ! (k mod length rs)) [0..<2 * length rs] = rs @ rs"
proof -
  have a: "map (\<lambda>k. rs ! (k mod length rs)) [0..<length rs] = map (\<lambda>k. rs ! k) [0..<length rs]"
    by (rule map_cong) simp_all
  have b: "[length rs..<length rs + length rs] = map (\<lambda>i. i + length rs) [0..<length rs]"
    by (simp add: map_add_upt)
  have c: "map (\<lambda>k. rs ! (k mod length rs)) [length rs..<length rs + length rs]
      = map (\<lambda>k. rs ! k) [0..<length rs]"
    unfolding b by (simp add: comp_def)
  have d: "[0..<length rs + length rs] = [0..<length rs] @ [length rs..<length rs + length rs]"
    by (rule upt_add_eq_append) simp
  have e: "2 * length rs = length rs + length rs"
    by simp
  have "map (\<lambda>k. rs ! (k mod length rs)) [0..<2 * length rs]
      = map (\<lambda>k. rs ! (k mod length rs)) ([0..<length rs] @ [length rs..<length rs + length rs])"
    by (simp only: e d)
  also have "\<dots> = map (\<lambda>k. rs ! (k mod length rs)) [0..<length rs]
      @ map (\<lambda>k. rs ! (k mod length rs)) [length rs..<length rs + length rs]"
    by (rule map_append)
  also have "\<dots> = rs @ rs"
    by (simp only: a c map_nth)
  finally show ?thesis .
qed

text \<open>
  Claim C2 (with the selector modelled from the spec). On a route whose refreshed form \<open>r\<close>
  has \<^verbatim>\<open>sequentialResponse\<close> set and \<open>N > 0\<close> responses, the handler's counter starts at 1 and
  grows by exactly one with each request, so that after \<open>m\<close> requests it is \<open>m + 1\<close>; the
  request with number \<open>k + 1\<close> selects the response of index \<open>k mod N\<close>, and \<open>2N\<close> requests
  select the whole list twice in its order: 0, 1, ..., N-1, 0, 1, ..., N-1.
\<close>

theorem serve_sequential_order:
  assumes "\<forall>x\<in>set reqs. getRefreshedRoute (refreshEnvironment (fst x)) declaredRoute = Some r"
    and "sequentialResponse r" and "responses r \<noteq> []"
  shows "serve ext declaredRoute initial_requestNumber reqs
           = (map (\<lambda>k. Chosen (responses r ! (k mod length (responses r)))) [0..<length reqs],
              Suc (length reqs))
         \<and> (length reqs = 2 * length (responses r) \<longrightarrow>
               fst (serve ext declaredRoute initial_requestNumber reqs)
                 = map Chosen (responses r @ responses r))"
proof -
  have s: "serve ext declaredRoute initial_requestNumber reqs
           = (map (\<lambda>k. Chosen (responses r ! (k mod length (responses r)))) [0..<length reqs],
              Suc (length reqs))"
    using serve_sequential_from [OF assms, of ext initial_requestNumber]
      shifted_indices [of "\<lambda>k. Chosen (responses r ! (k mod length (responses r)))" "length reqs"]
    by (simp add: initial_requestNumber_def del: upt_Suc)
  have "map (\<lambda>k. Chosen (responses r ! (k mod length (responses r)))) [0..<2 * length (responses r)]
      = map Chosen (map (\<lambda>k. responses r ! (k mod length (responses r))) [0..<2 * length (responses r)])"
    by (simp add: comp_def)
  then have t: "map (\<lambda>k. Chosen (responses r ! (k mod length (responses r)))) [0..<2 * length (responses r)]
      = map Chosen (responses r @ responses r)"
    by (simp only: cyclic_twice)
  show ?thesis
    using s t by simp
qed

theorem serve_sequential_order_witness:
  "getRefreshedRoute (refreshEnvironment (server_with None)) ping_route = Some ping_route
   \<and> sequentialResponse ping_route \<and> responses ping_route = [resp_a, resp_b]
   \<and> serve plain_collaborators ping_route initial_requestNumber
         (replicate 4 (server_with None, get_request, fresh_response))
       = ([Chosen resp_a, Chosen resp_b, Chosen resp_a, Chosen resp_b], 5)"
proof -
  have a: "\<forall>x\<in>set (replicate 4 (server_with None, get_request, fresh_response)).
       getRefreshedRoute (refreshEnvironment (fst x)) ping_route = Some ping_route"
    by (simp add: getRefreshedRoute_def refreshEnvironment_def server_with_def)
  have b: "sequentialResponse ping_route" and c: "responses ping_route \<noteq> []"
    and d: "responses ping_route = [resp_a, resp_b]"
    by (simp_all add: ping_route_def)
  have l: "length (replicate 4 (server_with None, get_request, fresh_response)) = 4"
    by simp
  have u: "[0..<4] = [0, 1, 2, 3]"
    by (simp add: upt_rec)
  have m: "map (\<lambda>k. Chosen (responses ping_route ! (k mod length (responses ping_route)))) [0, 1, 2, 3::nat]
      = [Chosen resp_a, Chosen resp_b, Chosen resp_a, Chosen resp_b]"
    by code_simp
  have "serve plain_collaborators ping_route initial_requestNumber
         (replicate 4 (server_with None, get_request, fresh_response))
       = ([Chosen resp_a, Chosen resp_b, Chosen resp_a, Chosen resp_b], 5)"
    using serve_sequential_order [OF a b c, of plain_collaborators]
    unfolding l u m by simp
  moreover have "getRefreshedRoute (refreshEnvironment (server_with None)) ping_route = Some ping_route"
    using a by simp
  ultimately show ?thesis using b d by blast
qed

section \<open>Properties of the transactions\<close>

lemma TransformHeaders_foldl:
  "foldl (\<lambda>newHeaders kv. newHeaders @ [\<lparr>key = fst kv, hvalue = header_text (snd kv)\<rparr>]) acc hs
     = acc @ map (\<lambda>kv. \<lparr>key = fst kv, hvalue = header_text (snd kv)\<rparr>) hs"
  by (induction hs arbitrary: acc) simp_all

lemma TransformHeaders_map:
  "TransformHeaders hs = map (\<lambda>kv. \<lparr>key = fst kv, hvalue = header_text (snd kv)\<rparr>) hs"
  by (simp add: TransformHeaders_def TransformHeaders_foldl)

lemma keys_TransformHeaders: "map key (TransformHeaders hs) = map fst hs"
  by (simp add: TransformHeaders_map comp_def)

lemma mset_insert_by: "mset (insert_by cmp x ys) = add_mset x (mset ys)"
  by (induction ys) simp_all

lemma set_insert_by: "set (insert_by cmp x ys) = insert x (set ys)"
  by (induction ys) auto

lemma sorted_insert_by_AscSort:
  "sorted_wrt (<) (map key ys) \<Longrightarrow> key x \<notin> key ` set ys \<Longrightarrow>
   sorted_wrt (<) (map key (insert_by AscSort x ys))"
proof (induction ys)
  case Nil
  then show ?case by simp
next
  case (Cons y ys)
  show ?case
  proof (cases "key x < key y")
    case True
    with Cons.prems show ?thesis
      by (auto simp: AscSort_def)
  next
    case False
    with Cons.prems have "key y < key x"
      by auto
    with Cons False show ?thesis
      by (auto simp: AscSort_def set_insert_by)
  qed
qed

lemma array_sort_foldl:
  "sorted_wrt (<) (map key acc) \<Longrightarrow> distinct (map key (acc @ xs)) \<Longrightarrow>
   sorted_wrt (<) (map key (foldl (\<lambda>acc x. insert_by AscSort x acc) acc xs))
   \<and> mset (foldl (\<lambda>acc x. insert_by AscSort x acc) acc xs) = mset acc + mset xs"
proof (induction xs arbitrary: acc)
  case Nil
  then show ?case by simp
next
  case (Cons x xs)
  have s: "sorted_wrt (<) (map key (insert_by AscSort x acc))"
    using Cons.prems by (intro sorted_insert_by_AscSort) auto
  have "mset (map key (insert_by AscSort x acc @ xs)) = mset (map key (acc @ x # xs))"
    by (simp add: mset_insert_by)
  then have d: "distinct (map key (insert_by AscSort x acc @ xs))"
    using Cons.prems(2) mset_eq_imp_distinct_iff by blast
  from Cons.IH [OF s d] show ?case
    by (simp add: mset_insert_by)
qed

lemma array_sort_AscSort:
  assumes "distinct (map key xs)"
  shows "sorted_wrt (<) (map key (array_sort AscSort xs))"
    and "mset (array_sort AscSort xs) = mset xs"
  using array_sort_foldl [of "[]" xs] assms by (simp_all add: array_sort_def)

text \<open>
  Claim C9. In the transaction that \<^verbatim>\<open>CreateTransaction\<close> builds from a request and a
  response (header objects have distinct keys), the request headers and the response
  headers are in strictly ascending order of their keys and are, as multisets, the
  transformed headers of the request and the response; a header whose value is an array
  appears with the elements joined by commas.
\<close>

theorem CreateTransaction_headers_sorted:
  assumes "distinct (map fst (Request.headers req))"
    and "distinct (map fst (Response.headers res))"
  shows "sorted_wrt (<)
           (map key (TransactionRequest.headers (request (CreateTransaction pathname req res))))
         \<and> sorted_wrt (<)
           (map key (TransactionResponse.headers (response (CreateTransaction pathname req res))))
         \<and> mset (TransactionRequest.headers (request (CreateTransaction pathname req res)))
             = mset (map (\<lambda>kv. \<lparr>key = fst kv, hvalue = header_text (snd kv)\<rparr>) (Request.headers req))
         \<and> mset (TransactionResponse.headers (response (CreateTransaction pathname req res)))
             = mset (map (\<lambda>kv. \<lparr>key = fst kv, hvalue = header_text (Some (snd kv))\<rparr>)
                      (Response.headers res))
         \<and> ((k, Some (HArray vs)) \<in> set (Request.headers req) \<longrightarrow>
              \<lparr>key = k, hvalue = join '','' vs\<rparr>
                \<in> set (TransactionRequest.headers (request (CreateTransaction pathname req res))))
         \<and> ((k, HArray vs) \<in> set (Response.headers res) \<longrightarrow>
              \<lparr>key = k, hvalue = join '','' vs\<rparr>
                \<in> set (TransactionResponse.headers (response (CreateTransaction pathname req res))))"
proof -
  have a: "distinct (map key (TransformHeaders (Request.headers req)))"
    using assms(1) by (simp add: keys_TransformHeaders)
  have b: "distinct (map key (TransformHeaders (getHeaders res)))"
    using assms(2) by (simp add: keys_TransformHeaders getHeaders_def comp_def)
  have rq: "TransactionRequest.headers (request (CreateTransaction pathname req res))
      = array_sort AscSort (TransformHeaders (Request.headers req))"
    and rs: "TransactionResponse.headers (response (CreateTransaction pathname req res))
      = array_sort AscSort (TransformHeaders (getHeaders res))"
    by (simp_all add: CreateTransaction_def)
  have m1: "mset (array_sort AscSort (TransformHeaders (Request.headers req)))
      = mset (map (\<lambda>kv. \<lparr>key = fst kv, hvalue = header_text (snd kv)\<rparr>) (Request.headers req))"
    using array_sort_AscSort(2) [OF a] by (simp add: TransformHeaders_map)
  have m2: "mset (array_sort AscSort (TransformHeaders (getHeaders res)))
      = mset (map (\<lambda>kv. \<lparr>key = fst kv, hvalue = header_text (Some (snd kv))\<rparr>) (Response.headers res))"
    using array_sort_AscSort(2) [OF b] by (simp add: TransformHeaders_map getHeaders_def comp_def)
  have e1: "(k, Some (HArray vs)) \<in> set (Request.headers req) \<longrightarrow>
      \<lparr>key = k, hvalue = join '','' vs\<rparr> \<in> set (array_sort AscSort (TransformHeaders (Request.headers req)))"
  proof
    assume "(k, Some (HArray vs)) \<in> set (Request.headers req)"
    then have "\<lparr>key = fst (k, Some (HArray vs)), hvalue = header_text (snd (k, Some (HArray vs)))\<rparr>
        \<in> set (map (\<lambda>kv. \<lparr>key = fst kv, hvalue = header_text (snd kv)\<rparr>) (Request.headers req))"
      unfolding set_map by (rule imageI)
    then show "\<lparr>key = k, hvalue = join '','' vs\<rparr> \<in> set (array_sort AscSort (TransformHeaders (Request.headers req)))"
      using mset_eq_setD [OF m1] by (simp add: header_text_def)
  qed
  have e2: "(k, HArray vs) \<in> set (Response.headers res) \<longrightarrow>
      \<lparr>key = k, hvalue = join '','' vs\<rparr> \<in> set (array_sort AscSort (TransformHeaders (getHeaders res)))"
  proof
    assume "(k, HArray vs) \<in> set (Response.headers res)"
    then have "\<lparr>key = fst (k, HArray vs), hvalue = header_text (Some (snd (k, HArray vs)))\<rparr>
        \<in> set (map (\<lambda>kv. \<lparr>key = fst kv, hvalue = header_text (Some (snd kv))\<rparr>) (Response.headers res))"
      unfolding set_map by (rule imageI)
    then show "\<lparr>key = k, hvalue = join '','' vs\<rparr> \<in> set (array_sort AscSort (TransformHeaders (getHeaders res)))"
      using mset_eq_setD [OF m2] by (simp add: header_text_def)
  qed
  show ?thesis
    unfolding rq rs
    using array_sort_AscSort(1) [OF a] array_sort_AscSort(1) [OF b] m1 m2 e1 e2
    by blast
qed

theorem CreateTransaction_headers_sorted_witness:
  "distinct (map fst (Request.headers logged_request))
   \<and> distinct (map fst (Response.headers logged_response))
   \<and> sorted_wrt (<)
       (map key (TransactionRequest.headers (request (CreateTransaction (\<lambda>u. u) logged_request logged_response))))
   \<and> TransactionRequest.headers (request (CreateTransaction (\<lambda>u. u) logged_request logged_response))
       = [\<lparr>key = ''accept'', hvalue = ''text/html,application/json''\<rparr>,
          \<lparr>key = ''host'', hvalue = ''localhost:3000''\<rparr>,
          \<lparr>key = ''x-empty'', hvalue = []\<rparr>]
   \<and> TransactionResponse.headers (response (CreateTransaction (\<lambda>u. u) logged_request logged_response))
       = [\<lparr>key = ''content-type'', hvalue = ''text/plain''\<rparr>,
          \<lparr>key = ''set-cookie'', hvalue = ''a=1,b=2''\<rparr>,
          \<lparr>key = ''x-powered'', hvalue = ''mock''\<rparr>]"
proof -
  have a: "distinct (map fst (Request.headers logged_request))"
    by (simp add: logged_request_def)
  have b: "distinct (map fst (Response.headers logged_response))"
    by (simp add: logged_response_def)
  have c: "TransactionRequest.headers (request (CreateTransaction (\<lambda>u. u) logged_request logged_response))
       = [\<lparr>key = ''accept'', hvalue = ''text/html,application/json''\<rparr>,
          \<lparr>key = ''host'', hvalue = ''localhost:3000''\<rparr>,
          \<lparr>key = ''x-empty'', hvalue = []\<rparr>]"
    by code_simp
  have d: "TransactionResponse.headers (response (CreateTransaction (\<lambda>u. u) logged_request logged_response))
       = [\<lparr>key = ''content-type'', hvalue = ''text/plain''\<rparr>,
          \<lparr>key = ''set-cookie'', hvalue = ''a=1,b=2''\<rparr>,
          \<lparr>key = ''x-powered'', hvalue = ''mock''\<rparr>]"
    by code_simp
  from CreateTransaction_headers_sorted [OF a b, where pathname = "\<lambda>u. u"] a b c d show ?thesis
    by blast
qed

end
